theory Spec2Isabelle
  imports Complex_Main "HOL-Library.Sublist" "HOL-Library.AList"
begin

section \<open>Python values used by the sources\<close>

text \<open>
  The exceptions that the modelled code can raise. A raise is the value \<open>Inl e\<close> of a
  result type \<open>py_error + 'a\<close>; a normal return is \<open>Inr v\<close>.
\<close>

datatype py_error = ValueError | KeyError | IndexError | AttributeError | TypeError

text \<open>
  Python strings are modelled as \<open>string\<close> (lists of 8-bit characters), which covers
  the ASCII range that \<open>string.punctuation\<close> and the image names live in.
\<close>

definition punctuation :: string where
  "punctuation =
     [CHR ''!'', CHR 0x22, CHR ''#'', CHR ''$'', CHR ''%'', CHR ''&'', CHR 0x27,
      CHR ''('', CHR '')'', CHR ''*'', CHR ''+'', CHR '','', CHR ''-'', CHR ''.'',
      CHR ''/'', CHR '':'', CHR '';'', CHR ''<'', CHR ''='', CHR ''>'', CHR ''?'',
      CHR ''@'', CHR ''['', CHR 0x5C, CHR '']'', CHR ''^'', CHR ''_'', CHR 0x60,
      CHR ''{'', CHR ''|'', CHR ''}'', CHR ''~'']"

text \<open>
  \<open>s.split(sep, maxsplit=n)\<close> for a one-character separator: cut at each occurrence of
  \<open>sep\<close>, at most \<open>n\<close> times; the rest of the string is the last piece.
\<close>

fun str_split :: "char \<Rightarrow> nat \<Rightarrow> string \<Rightarrow> string list" where
  "str_split sep 0 s = [s]"
| "str_split sep (Suc n) s =
     (if sep \<in> set s
      then takeWhile (\<lambda>c. c \<noteq> sep) s # str_split sep n (tl (dropWhile (\<lambda>c. c \<noteq> sep) s))
      else [s])"

text \<open>\<open>s.strip(chars)\<close>: drop the leading and the trailing characters that are in \<open>chars\<close>.\<close>

definition str_strip :: "string \<Rightarrow> string \<Rightarrow> string" where
  "str_strip chars s =
     rev (dropWhile (\<lambda>c. c \<in> set chars) (rev (dropWhile (\<lambda>c. c \<in> set chars) s)))"

text \<open>\<open>p in s\<close> on strings: \<open>p\<close> occurs in \<open>s\<close> as a contiguous substring.\<close>

fun str_contains :: "string \<Rightarrow> string \<Rightarrow> bool" where
  "str_contains p [] = (p = [])"
| "str_contains p (c # s) = (prefix p (c # s) \<or> str_contains p s)"

section \<open>NsInfo\<close>

definition img_names :: "string list" where
  "img_names = [''pA'', ''pAgF'', ''pFgA'', ''uniformity-test_z'', ''association-test_z'']"

definition prior_img_names :: "string list" where
  "prior_img_names = [''pAgF_given_pF='', ''pFgA_given_pF='']"

definition fdr_img_names :: "string list" where
  "fdr_img_names = [''uniformity-test_z_FDR_'', ''association-test_z_FDR_'']"

text \<open>
  \<open>NsInfo.shorten_expr\<close>: \<open>expr.split(' ', maxsplit=1)[0].strip(punctuation)\<close>. The list
  returned by \<open>split\<close> is never empty, so the index 0 cannot fail.
\<close>

definition shorten_expr :: "string \<Rightarrow> string" where
  "shorten_expr expr = (let abbr = hd (str_split (CHR '' '') 1 expr) in str_strip punctuation abbr)"

text \<open>
  \<open>NsInfo.get_num_from_img_name\<close>. The built-in \<open>float\<close> is not code of the repository;
  it is the parameter \<open>float_of\<close>, with \<open>None\<close> where \<open>float\<close> raises ValueError. The two
  \<open>for\<close> loops are the two recursive scans below, in the order of the source.
\<close>

fun scan_names :: "(string \<Rightarrow> real option) \<Rightarrow> string \<Rightarrow> string \<Rightarrow> string list \<Rightarrow>
    (py_error + (string \<times> real) list) option" where
  "scan_names float_of key image_name [] = None"
| "scan_names float_of key image_name (nm # nms) =
     (if str_contains nm image_name
      then (let num = drop (length nm) image_name
            in case float_of num of
                 None \<Rightarrow> Some (Inl ValueError)
               | Some x \<Rightarrow> Some (Inr [(key, x)]))
      else scan_names float_of key image_name nms)"

definition get_num_from_img_name ::
    "(string \<Rightarrow> real option) \<Rightarrow> string \<Rightarrow> py_error + (string \<times> real) list" where
  "get_num_from_img_name float_of image_name =
     (if image_name \<in> set img_names then Inr []
      else case scan_names float_of ''prior'' image_name prior_img_names of
             Some r \<Rightarrow> r
           | None \<Rightarrow>
               (case scan_names float_of ''fdr'' image_name fdr_img_names of
                  Some r \<Rightarrow> r
                | None \<Rightarrow> Inr []))"

section \<open>MetaAnalysisPlus.Info\<close>

text \<open>
  The values of an info mapping are scalars: strings such as an expression, or numbers
  such as a number of studies.
\<close>

datatype py_val = Str string | Num real

text \<open>
  \<open>OrderedDict(pairs)\<close>: the pairs are inserted from left to right; a key that is
  already present keeps its position and takes the new value.
\<close>

definition odict :: "(string \<times> py_val) list \<Rightarrow> (string \<times> py_val) list" where
  "odict pairs = fold (\<lambda>kv d. AList.update (fst kv) (snd kv) d) pairs []"

text \<open>An \<open>Info\<close> object: the ordered mapping itself and its attribute \<open>name\<close>.\<close>

record info =
  items :: "(string \<times> py_val) list"
  name :: string

text \<open>
  \<open>Info.get_shorthand\<close>. \<open>shorten_expr\<close> calls \<open>expr.split\<close>, which raises
  AttributeError when the stored value is a number.
\<close>

definition get_shorthand :: "(string \<times> py_val) list \<Rightarrow> py_error + string" where
  "get_shorthand d =
     (case map_of d ''expression'' of
        None \<Rightarrow> Inr []
      | Some (Num x) \<Rightarrow> Inl AttributeError
      | Some (Str e) \<Rightarrow>
          (case map_of d ''contrary expression'' of
             None \<Rightarrow> Inr (shorten_expr e)
           | Some (Num y) \<Rightarrow> Inl AttributeError
           | Some (Str c) \<Rightarrow> Inr (shorten_expr e @ ''_vs_'' @ shorten_expr c)))"

text \<open>\<open>Info.__init__\<close>: build the mapping, then \<open>self.name = self.get_shorthand()\<close>.\<close>

definition Info_init :: "(string \<times> py_val) list \<Rightarrow> py_error + info" where
  "Info_init pairs =
     (let d = odict pairs
      in case get_shorthand d of
           Inl e \<Rightarrow> Inl e
         | Inr n \<Rightarrow> Inr \<lparr>items = d, name = n\<rparr>)"

definition set_name :: "string \<Rightarrow> info \<Rightarrow> info" where
  "set_name n i = i\<lparr>name := n\<rparr>"

section \<open>MetaAnalysisPlus\<close>

text \<open>
  A result object: its info, the dataset it refers to (an abstract handle \<open>'d\<close>) and its
  images, a dict from image name to a one-dimensional voxel array of element type \<open>'v\<close>.
  The dict is an association list in insertion order.
\<close>

record ('v, 'd) meta =
  info :: info
  dataset :: 'd
  images :: "(string \<times> 'v list) list"

text \<open>
  The first argument of the constructor is either an \<open>Info\<close> object, which is kept as
  it is, or a list of pairs, from which an \<open>Info\<close> is built.
\<close>

datatype info_arg = InfoObj info | InfoPairs "(string \<times> py_val) list"

text \<open>
  \<open>MetaAnalysisPlus.__init__\<close> on the path where \<open>images\<close> is given (the other path runs
  the meta-analysis of the external library).
\<close>

definition meta_init ::
    "info_arg \<Rightarrow> 'd \<Rightarrow> (string \<times> 'v list) list \<Rightarrow> py_error + ('v, 'd) meta" where
  "meta_init ia ds imgs =
     (case ia of
        InfoObj i \<Rightarrow> Inr \<lparr>info = i, dataset = ds, images = imgs\<rparr>
      | InfoPairs pairs \<Rightarrow>
          (case Info_init pairs of
             Inl e \<Rightarrow> Inl e
           | Inr i \<Rightarrow> Inr \<lparr>info = i, dataset = ds, images = imgs\<rparr>))"

subsection \<open>Array operations of the numeric library\<close>

text \<open>
  \<open>[meta.images[image_name] for meta in meta_list]\<close>: KeyError at the first analysis
  without the image.
\<close>

fun collect_images :: "string \<Rightarrow> ('v, 'd) meta list \<Rightarrow> py_error + 'v list list" where
  "collect_images image_name [] = Inr []"
| "collect_images image_name (m # ms) =
     (case map_of (images m) image_name of
        None \<Rightarrow> Inl KeyError
      | Some img \<Rightarrow>
          (case collect_images image_name ms of
             Inl e \<Rightarrow> Inl e
           | Inr imgs \<Rightarrow> Inr (img # imgs)))"

text \<open>
  Stacking arrays into a matrix needs rows of one length; otherwise the library raises
  ValueError.
\<close>

definition np_array :: "'v list list \<Rightarrow> py_error + 'v list list" where
  "np_array rows =
     (if list_all (\<lambda>r. length r = length (hd rows)) rows then Inr rows else Inl ValueError)"

text \<open>\<open>np.sum(m, axis=0)\<close> on a Boolean matrix: the column-wise number of True entries.\<close>

fun np_sum_axis0 :: "bool list list \<Rightarrow> nat list" where
  "np_sum_axis0 [] = []"
| "np_sum_axis0 [r] = map of_bool r"
| "np_sum_axis0 (r # rs) = map2 (\<lambda>b n. of_bool b + n) r (np_sum_axis0 rs)"

text \<open>\<open>np.mean(m, axis=0)\<close>: the column-wise sum divided by the number of rows.\<close>

definition np_mean_axis0 :: "real list list \<Rightarrow> real list" where
  "np_mean_axis0 rows =
     map (\<lambda>j. sum_list (map (\<lambda>r. r ! j) rows) / real (length rows)) [0..<length (hd rows)]"

subsection \<open>mean\<close>

text \<open>
  The loop \<open>for img in meta_list[0].images\<close> of \<open>mean\<close>, over the remaining keys, with
  the dict \<open>mean_imgs\<close> built so far.
\<close>

fun mean_loop :: "(real, 'd) meta list \<Rightarrow> string list \<Rightarrow> (string \<times> real list) list \<Rightarrow>
    py_error + (string \<times> real list) list" where
  "mean_loop meta_list [] mean_imgs = Inr mean_imgs"
| "mean_loop meta_list (img # imgs) mean_imgs =
     (case collect_images img meta_list of
        Inl e \<Rightarrow> Inl e
      | Inr rows \<Rightarrow>
          (case np_array rows of
             Inl e \<Rightarrow> Inl e
           | Inr m \<Rightarrow> mean_loop meta_list imgs (AList.update img (np_mean_axis0 m) mean_imgs)))"

fun mean :: "(real, 'd) meta list \<Rightarrow> py_error + (real, 'd) meta" where
  "mean [] = Inl ValueError"
| "mean [m] = Inr m"
| "mean (m # ms) =
     (case mean_loop (m # ms) (map fst (images m)) [] of
        Inl e \<Rightarrow> Inl e
      | Inr mean_imgs \<Rightarrow> meta_init (InfoObj (info m)) (dataset m) mean_imgs)"

subsection \<open>conjunction\<close>

text \<open>
  The threshold branches of \<open>conjunction\<close>: the count image and the name of the
  criterion. The built-in \<open>str\<close> on numbers is the parameter \<open>str_of\<close>. With no
  threshold at all the comparison of an array with \<open>None\<close> would raise TypeError;
  \<open>conjunction\<close> never gets that far.
\<close>

definition conjunction_image :: "(real \<Rightarrow> string) \<Rightarrow> real list list \<Rightarrow> real option \<Rightarrow>
    real option \<Rightarrow> py_error + nat list \<times> string" where
  "conjunction_image str_of src_imgs lower_thr upper_thr =
     (case upper_thr of
        None \<Rightarrow>
          (case lower_thr of
             None \<Rightarrow> Inl TypeError
           | Some l \<Rightarrow> Inr (np_sum_axis0 (map (map (\<lambda>x. x > l)) src_imgs), ''>'' @ str_of l))
      | Some u \<Rightarrow>
          (case lower_thr of
             None \<Rightarrow> Inr (np_sum_axis0 (map (map (\<lambda>x. x < u)) src_imgs), ''<'' @ str_of u)
           | Some l \<Rightarrow>
               (if l < u
                then Inr (np_sum_axis0 (map (map (\<lambda>x. x > l \<and> x < u)) src_imgs),
                          str_of l @ ''-'' @ str_of u)
                else Inr (np_sum_axis0 (map (map (\<lambda>x. l < x \<or> x < u)) src_imgs),
                          ''>'' @ str_of l @ ''or'' @ ''<'' @ str_of u))))"

text \<open>
  The end of \<open>conjunction\<close>: the info and the result object. \<open>expression\<close> is \<open>None\<close> or
  a string; the test \<open>if expression\<close> holds for a nonempty string. \<open>meta_list[0]\<close>
  raises IndexError on the empty list.
\<close>

definition conjunction_result :: "('v, 'd) meta list \<Rightarrow> string \<Rightarrow> string option \<Rightarrow>
    (string \<times> py_val) list \<Rightarrow> nat list \<Rightarrow> string \<Rightarrow> py_error + (nat, 'd) meta" where
  "conjunction_result meta_list image_name expression extra_info conj_img comp_name =
     (let pairs = [(''based on'', Str image_name), (''criterion'', Str comp_name)] @ extra_info
      in case expression of
           Some (c # cs) \<Rightarrow>
             (case Info_init pairs of
                Inl e \<Rightarrow> Inl e
              | Inr i \<Rightarrow>
                  (let i' = set_name (shorten_expr (c # cs) @ ''_'' @ image_name @ comp_name) i
                   in case meta_list of
                        [] \<Rightarrow> Inl IndexError
                      | m # ms \<Rightarrow> meta_init (InfoObj i') (dataset m) [(''conjunction'', conj_img)]))
         | _ \<Rightarrow>
             (case meta_list of
                [] \<Rightarrow> Inl IndexError
              | m # ms \<Rightarrow> meta_init (InfoPairs pairs) (dataset m) [(''conjunction'', conj_img)]))"

text \<open>\<open>MetaAnalysisPlus.conjunction\<close>.\<close>

definition conjunction :: "(real \<Rightarrow> string) \<Rightarrow> (real, 'd) meta list \<Rightarrow> string \<Rightarrow>
    real option \<Rightarrow> real option \<Rightarrow> string option \<Rightarrow> (string \<times> py_val) list \<Rightarrow>
    py_error + (nat, 'd) meta" where
  "conjunction str_of meta_list image_name lower_thr upper_thr expression extra_info =
     (if lower_thr = None \<and> upper_thr = None then Inl ValueError
      else if lower_thr = upper_thr then Inl ValueError
      else
        case collect_images image_name meta_list of
          Inl e \<Rightarrow> Inl e
        | Inr rows \<Rightarrow>
            (case np_array rows of
               Inl e \<Rightarrow> Inl e
             | Inr src_imgs \<Rightarrow>
                 (case conjunction_image str_of src_imgs lower_thr upper_thr of
                    Inl e \<Rightarrow> Inl e
                  | Inr (conj_img, comp_name) \<Rightarrow>
                      conjunction_result meta_list image_name expression extra_info
                        conj_img comp_name)))"

section \<open>Global: the status of the application\<close>








section \<open>Notions of the specification\<close>

text \<open>The ASCII whitespace characters: space, tab, line feed, vertical tab, form feed, carriage return.\<close>

definition is_whitespace :: "char \<Rightarrow> bool" where
  "is_whitespace c = (c \<in> set [CHR '' '', CHR 0x09, CHR 0x0A, CHR 0x0B, CHR 0x0C, CHR 0x0D])"

text \<open>
  The first whitespace-delimited token of a string, as the specification words it: the
  string is split at its first whitespace character and the part before it is taken.
\<close>

definition first_whitespace_token :: "string \<Rightarrow> string" where
  "first_whitespace_token s = takeWhile (\<lambda>c. \<not> is_whitespace c) s"

text \<open>
  The number of analyses of the list whose image \<open>image_name\<close> has, at voxel \<open>j\<close>, a value
  that satisfies \<open>P\<close>.
\<close>

definition voxel_count :: "(real \<Rightarrow> bool) \<Rightarrow> string \<Rightarrow> (real, 'd) meta list \<Rightarrow> nat \<Rightarrow> nat" where
  "voxel_count P image_name meta_list j =
     length (filter (\<lambda>m. case map_of (images m) image_name of
                            None \<Rightarrow> False
                          | Some img \<Rightarrow> j < length img \<and> P (img ! j)) meta_list)"

text \<open>
  The characters of a number rendered in decimal: the digits, the point, the signs, the
  exponent mark and the letters of \<open>inf\<close> and \<open>nan\<close>.
\<close>

definition float_chars :: string where
  "float_chars = ''0123456789.+-einfa''"

text \<open>
  \<open>r\<close> is a decimal rendering of the number \<open>x\<close>: it is made of those characters and
  the built-in \<open>float\<close> parses it back to \<open>x\<close>.
\<close>

definition decimal_rendering :: "(string \<Rightarrow> real option) \<Rightarrow> string \<Rightarrow> real \<Rightarrow> bool" where
  "decimal_rendering float_of r x = (float_of r = Some x \<and> list_all (\<lambda>c. c \<in> set float_chars) r)"

text \<open>
  The criterion of \<open>conjunction\<close> for a voxel value \<open>x\<close>, as its documentation states it
  for the four threshold configurations.
\<close>

definition criterion :: "real option \<Rightarrow> real option \<Rightarrow> real \<Rightarrow> bool" where
  "criterion lower_thr upper_thr x =
     (case (lower_thr, upper_thr) of
        (Some l, None) \<Rightarrow> l < x
      | (None, Some u) \<Rightarrow> x < u
      | (Some l, Some u) \<Rightarrow> (if l < u then l < x \<and> x < u else l < x \<or> x < u)
      | (None, None) \<Rightarrow> False)"

text \<open>
  The entries of \<open>extra_info\<close> under the keys \<open>expression\<close> and \<open>contrary expression\<close>
  are strings, as the constructor of \<open>Info\<close> expects.
\<close>

definition expression_entries_are_strings :: "(string \<times> py_val) list \<Rightarrow> bool" where
  "expression_entries_are_strings extra_info =
     list_all (\<lambda>kv. case snd kv of
                       Str s \<Rightarrow> True
                     | Num x \<Rightarrow> fst kv \<noteq> ''expression'' \<and> fst kv \<noteq> ''contrary expression'')
       extra_info"

text \<open>All analyses of the list have the same set of image names.\<close>

definition uniform_image_names :: "('v, 'd) meta list \<Rightarrow> bool" where
  "uniform_image_names meta_list =
     list_all (\<lambda>m. set (map fst (images m)) = set (map fst (images (hd meta_list)))) meta_list"

text \<open>Every image of every analysis of the list is a volume of \<open>n\<close> voxels.\<close>

definition volumes_of_size :: "nat \<Rightarrow> ('v, 'd) meta list \<Rightarrow> bool" where
  "volumes_of_size n meta_list =
     list_all (\<lambda>m. list_all (\<lambda>kv. length (snd kv) = n) (images m)) meta_list"

section \<open>Properties of shorten_expr\<close>

lemma takeWhile_no_sep: "sep \<notin> set s \<Longrightarrow> takeWhile (\<lambda>c. c \<noteq> sep) s = s"
  by (induction s) auto

lemma hd_str_split_one: "hd (str_split sep 1 s) = takeWhile (\<lambda>c. c \<noteq> sep) s"
  by (simp add: numeral_eq_Suc takeWhile_no_sep)

text \<open>
  Claim C2, as the code has it: for every expression string, \<open>shorten_expr\<close> is the part
  of the expression before its first space character (the whole expression when it
  has none), with the leading and trailing punctuation characters removed. Only the
  space character delimits; a tab or a line feed does not.
\<close>

theorem shorten_expr_space_prefix:
  "shorten_expr expr = str_strip punctuation (takeWhile (\<lambda>c. c \<noteq> CHR '' '') expr)"
  unfolding shorten_expr_def Let_def hd_str_split_one ..

theorem shorten_expr_space_prefix_witness:
  "shorten_expr ''(pain), chronic'' = ''pain''"
proof -
  have "shorten_expr ''(pain), chronic''
          = str_strip punctuation (takeWhile (\<lambda>c. c \<noteq> CHR '' '') ''(pain), chronic'')"
    by (rule shorten_expr_space_prefix)
  then show ?thesis
    by (simp add: str_strip_def punctuation_def)
qed

text \<open>
  Claim C2 as stated fails when the first whitespace character is not a space: for the
  expression \<open>a<TAB>b\<close> the first whitespace-delimited token is \<open>a\<close>, while
  \<open>shorten_expr\<close> returns the whole string.
\<close>

theorem shorten_expr_tab_counterexample:
  "shorten_expr [CHR ''a'', CHR 0x09, CHR ''b'']
     \<noteq> str_strip punctuation (first_whitespace_token [CHR ''a'', CHR 0x09, CHR ''b''])"
  by (simp add: shorten_expr_def str_strip_def first_whitespace_token_def is_whitespace_def
      punctuation_def)

section \<open>Properties of mean and conjunction\<close>

text \<open>
  Claim C4: \<open>mean\<close> of a one-element list returns that element itself: the result is
  the same object, so its info, its dataset and its images are those of the element.
\<close>

theorem mean_singleton_identity: "mean [m] = Inr m"
  by simp

theorem mean_singleton_identity_witness:
  "mean [\<lparr>info = \<lparr>items = [(''expression'', Str ''pain'')], name = ''pain''\<rparr>, dataset = (),
          images = [(''pA'', [1, 2])]\<rparr>]
     = Inr \<lparr>info = \<lparr>items = [(''expression'', Str ''pain'')], name = ''pain''\<rparr>, dataset = (),
            images = [(''pA'', [1, 2])]\<rparr>"
  by (rule mean_singleton_identity)

text \<open>
  Claim C5: \<open>mean\<close> of the empty list raises ValueError; the check is the first
  statement of the function, so nothing is aggregated before it.
\<close>

theorem mean_empty_raises: "mean ([] :: (real, 'd) meta list) = Inl ValueError"
  by simp

text \<open>
  Claim C3: \<open>conjunction\<close> raises ValueError when neither threshold is given and
  whenever the two thresholds are equal, whatever the other arguments are; the result
  is the error, so no image and no result object is produced.
\<close>

theorem conjunction_invalid_thresholds:
  "conjunction str_of meta_list image_name None None expression extra_info = Inl ValueError \<and>
   conjunction str_of meta_list image_name (Some t) (Some t) expression extra_info
     = Inl ValueError"
  by (simp add: conjunction_def)

theorem conjunction_invalid_thresholds_witness:
  "conjunction (\<lambda>x. ''0'')
       [\<lparr>info = \<lparr>items = [], name = []\<rparr>, dataset = (), images = [(''pA'', [1, -1])]\<rparr>]
       ''pA'' None None None [] = Inl ValueError \<and>
   conjunction (\<lambda>x. ''0'')
       [\<lparr>info = \<lparr>items = [], name = []\<rparr>, dataset = (), images = [(''pA'', [1, -1])]\<rparr>]
       ''pA'' (Some 0) (Some 0) None [] = Inl ValueError"
  by (rule conjunction_invalid_thresholds)

section \<open>Properties of get_num_from_img_name\<close>

lemma str_contains_sublist: "str_contains p s = sublist p s"
  by (induction s) (simp_all add: sublist_Cons_right)

lemma str_contains_append: "str_contains p (p @ r)"
  by (simp add: str_contains_sublist)

lemma str_contains_char: "c \<in> set p \<Longrightarrow> c \<notin> set s \<Longrightarrow> \<not> str_contains p s"
  by (metis set_mono_sublist str_contains_sublist subsetD)

lemma float_chars_no_eq: "list_all (\<lambda>c. c \<in> set float_chars) r \<Longrightarrow> CHR ''='' \<notin> set r"
proof -
  assume a: "list_all (\<lambda>c. c \<in> set float_chars) r"
  have "CHR ''='' \<notin> set float_chars" by (simp add: float_chars_def)
  with a show ?thesis unfolding list_all_iff by blast
qed

lemma float_chars_no_us: "list_all (\<lambda>c. c \<in> set float_chars) r \<Longrightarrow> CHR ''_'' \<notin> set r"
proof -
  assume a: "list_all (\<lambda>c. c \<in> set float_chars) r"
  have "CHR ''_'' \<notin> set float_chars" by (simp add: float_chars_def)
  with a show ?thesis unfolding list_all_iff by blast
qed

lemma scan_names_hit:
  "str_contains nm s \<Longrightarrow> float_of (drop (length nm) s) = Some x \<Longrightarrow>
   scan_names float_of key s (nm # nms) = Some (Inr [(key, x)])"
  by simp

lemma scan_names_miss:
  "\<not> str_contains nm s \<Longrightarrow> scan_names float_of key s (nm # nms) = scan_names float_of key s nms"
  by simp

lemma prior_not_base: "p \<in> set prior_img_names \<Longrightarrow> p @ r \<notin> set img_names"
  by (auto simp: prior_img_names_def img_names_def)

lemma fdr_not_base: "p \<in> set fdr_img_names \<Longrightarrow> p @ r \<notin> set img_names"
  by (auto simp: fdr_img_names_def img_names_def)

lemma scan_prior:
  assumes "p \<in> set prior_img_names" and "float_of r = Some x"
  shows "scan_names float_of key (p @ r) prior_img_names = Some (Inr [(key, x)])"
proof -
  have lp: "length ''pAgF_given_pF='' = length p" "length ''pFgA_given_pF='' = length p"
    using assms(1) by (auto simp: prior_img_names_def)
  have dr: "float_of (drop (length p) (p @ r)) = Some x"
    using assms(2) by simp
  have own: "str_contains p (p @ r)"
    by (rule str_contains_append)
  show ?thesis
  proof (cases "str_contains ''pAgF_given_pF='' (p @ r)")
    case True
    have "float_of (drop (length ''pAgF_given_pF='') (p @ r)) = Some x"
      using dr by (simp only: lp)
    with True show ?thesis
      unfolding prior_img_names_def by (rule scan_names_hit)
  next
    case False
    with own have "p \<noteq> ''pAgF_given_pF=''" by metis
    with assms(1) have p: "p = ''pFgA_given_pF=''"
      by (simp add: prior_img_names_def)
    have c: "str_contains ''pFgA_given_pF='' (p @ r)"
      using own p by metis
    have "float_of (drop (length ''pFgA_given_pF='') (p @ r)) = Some x"
      using dr by (simp only: lp)
    with c have "scan_names float_of key (p @ r) [''pFgA_given_pF=''] = Some (Inr [(key, x)])"
      by (rule scan_names_hit)
    moreover have "scan_names float_of key (p @ r) [''pAgF_given_pF='', ''pFgA_given_pF='']
        = scan_names float_of key (p @ r) [''pFgA_given_pF='']"
      using False by (rule scan_names_miss)
    ultimately show ?thesis
      unfolding prior_img_names_def by (rule ssubst[rotated])
  qed
qed

lemma scan_prior_fdr_none:
  assumes "p \<in> set fdr_img_names" and "CHR ''='' \<notin> set r"
  shows "scan_names float_of key (p @ r) prior_img_names = None"
proof -
  have "CHR ''='' \<notin> set (p @ r)"
    using assms by (auto simp: fdr_img_names_def)
  then have "\<And>q. q \<in> set prior_img_names \<Longrightarrow> \<not> str_contains q (p @ r)"
    by (rule str_contains_char[rotated]) (auto simp: prior_img_names_def)
  then have a: "\<not> str_contains ''pAgF_given_pF='' (p @ r)" "\<not> str_contains ''pFgA_given_pF='' (p @ r)"
    by (simp_all add: prior_img_names_def del: str_contains.simps)
  show ?thesis
    unfolding prior_img_names_def
    by (simp only: scan_names_miss[OF a(1)] scan_names_miss[OF a(2)] scan_names.simps(1))
qed

lemma uniformity_not_in_association:
  assumes "CHR ''_'' \<notin> set r"
  shows "\<not> str_contains ''uniformity-test_z_FDR_'' (''association-test_z_FDR_'' @ r)"
proof -
  have "\<not> str_contains ''uniformity-test_z_FDR_'' r"
    using assms by (intro str_contains_char[of "CHR ''_''"]) simp_all
  then show ?thesis by simp
qed

lemma scan_fdr:
  assumes "p \<in> set fdr_img_names" and "float_of r = Some x" and "CHR ''_'' \<notin> set r"
  shows "scan_names float_of key (p @ r) fdr_img_names = Some (Inr [(key, x)])"
proof -
  have own: "str_contains p (p @ r)"
    by (rule str_contains_append)
  have dr: "float_of (drop (length p) (p @ r)) = Some x"
    using assms(2) by simp
  have hit: "scan_names float_of key (p @ r) (p # nms) = Some (Inr [(key, x)])" for nms
    using own dr by (rule scan_names_hit)
  from assms(1) have "p = ''uniformity-test_z_FDR_'' \<or> p = ''association-test_z_FDR_''"
    by (simp add: fdr_img_names_def)
  then show ?thesis
  proof
    assume p: "p = ''uniformity-test_z_FDR_''"
    from hit[of "[''association-test_z_FDR_'']"] show ?thesis
      unfolding fdr_img_names_def p .
  next
    assume p: "p = ''association-test_z_FDR_''"
    have m: "\<not> str_contains ''uniformity-test_z_FDR_'' (p @ r)"
      unfolding p using assms(3) by (rule uniformity_not_in_association)
    have "scan_names float_of key (p @ r) [''uniformity-test_z_FDR_'', p]
        = scan_names float_of key (p @ r) [p]"
      using m by (rule scan_names_miss)
    with hit[of "[]"] show ?thesis
      unfolding fdr_img_names_def p by (simp only:)
  qed
qed

text \<open>
  Claim C8: \<open>get_num_from_img_name\<close> returns the empty dictionary for every base image
  name; for a prefix of the prior family followed by a decimal rendering of a number
  \<open>x\<close> it returns \<open>{'prior': x}\<close>, and for a prefix of the FDR family followed by a
  decimal rendering of \<open>x\<close> it returns \<open>{'fdr': x}\<close>.
\<close>

theorem get_num_from_img_name_roundtrip:
  "(image_name \<in> set img_names \<longrightarrow> get_num_from_img_name float_of image_name = Inr []) \<and>
   (p \<in> set prior_img_names \<and> decimal_rendering float_of r x \<longrightarrow>
      get_num_from_img_name float_of (p @ r) = Inr [(''prior'', x)]) \<and>
   (q \<in> set fdr_img_names \<and> decimal_rendering float_of r x \<longrightarrow>
      get_num_from_img_name float_of (q @ r) = Inr [(''fdr'', x)])"
proof (intro conjI impI)
  assume "image_name \<in> set img_names"
  then show "get_num_from_img_name float_of image_name = Inr []"
    by (simp add: get_num_from_img_name_def)
next
  assume a: "p \<in> set prior_img_names \<and> decimal_rendering float_of r x"
  then have "float_of r = Some x" by (simp add: decimal_rendering_def)
  with a show "get_num_from_img_name float_of (p @ r) = Inr [(''prior'', x)]"
    using prior_not_base[of p r] scan_prior[of p float_of r x "''prior''"]
    by (simp only: get_num_from_img_name_def if_False option.case)
next
  assume a: "q \<in> set fdr_img_names \<and> decimal_rendering float_of r x"
  then have f: "float_of r = Some x" and e: "CHR ''='' \<notin> set r" and u: "CHR ''_'' \<notin> set r"
    by (simp_all add: decimal_rendering_def float_chars_no_eq float_chars_no_us)
  from a have q: "q \<in> set fdr_img_names" ..
  show "get_num_from_img_name float_of (q @ r) = Inr [(''fdr'', x)]"
    using fdr_not_base[OF q, of r] scan_prior_fdr_none[OF q e, of float_of "''prior''"]
      scan_fdr[of q float_of r x "''fdr''", OF q f u]
    by (simp only: get_num_from_img_name_def if_False option.case)
qed

theorem get_num_from_img_name_roundtrip_witness:
  "get_num_from_img_name (\<lambda>s. if s = ''0.01'' then Some (1 / 100) else None) ''pAgF'' = Inr [] \<and>
   get_num_from_img_name (\<lambda>s. if s = ''0.01'' then Some (1 / 100) else None)
     (''pFgA_given_pF='' @ ''0.01'') = Inr [(''prior'', 1 / 100)] \<and>
   get_num_from_img_name (\<lambda>s. if s = ''0.01'' then Some (1 / 100) else None)
     (''association-test_z_FDR_'' @ ''0.01'') = Inr [(''fdr'', 1 / 100)]"
proof -
  let ?f = "\<lambda>s. if s = ''0.01'' then Some (1 / 100 :: real) else None"
  have b: "''pAgF'' \<in> set img_names" by (simp add: img_names_def)
  have p: "''pFgA_given_pF='' \<in> set prior_img_names" by (simp add: prior_img_names_def)
  have q: "''association-test_z_FDR_'' \<in> set fdr_img_names" by (simp add: fdr_img_names_def)
  have d: "decimal_rendering ?f ''0.01'' (1 / 100)"
    by (simp add: decimal_rendering_def float_chars_def)
  from get_num_from_img_name_roundtrip[of "''pAgF''" ?f "''pFgA_given_pF=''" "''0.01''" "1 / 100"
      "''association-test_z_FDR_''"] b p q d
  show ?thesis by blast
qed

section \<open>Properties of get_shorthand\<close>

text \<open>
  Claim C7, as the code has it: if the info mapping has both an \<open>expression\<close> key and a
  \<open>contrary expression\<close> key, with string values, the derived name is the shortened
  expression, the separator \<open>_vs_\<close> and the shortened contrary expression.
\<close>

theorem get_shorthand_vs:
  "map_of d ''expression'' = Some (Str e) \<Longrightarrow>
   map_of d ''contrary expression'' = Some (Str c) \<Longrightarrow>
   get_shorthand d = Inr (shorten_expr e @ ''_vs_'' @ shorten_expr c)"
  by (simp add: get_shorthand_def)

theorem get_shorthand_vs_witness:
  "get_shorthand [(''expression'', Str ''pain (chronic)''), (''contrary expression'', Str ''emotion'')]
     = Inr ''pain_vs_emotion''"
proof -
  let ?d = "[(''expression'', Str ''pain (chronic)''), (''contrary expression'', Str ''emotion'')]"
  have a: "map_of ?d ''expression'' = Some (Str ''pain (chronic)'')" by simp
  have b: "map_of ?d ''contrary expression'' = Some (Str ''emotion'')" by simp
  have c: "shorten_expr ''pain (chronic)'' @ ''_vs_'' @ shorten_expr ''emotion'' = ''pain_vs_emotion''"
    by (simp add: shorten_expr_def str_strip_def punctuation_def)
  from get_shorthand_vs[OF a b] c show ?thesis by (simp only:)
qed

text \<open>
  Claim C7 as stated fails for a mapping that has a \<open>contrary expression\<close> key and no
  \<open>expression\<close> key: the contrary expression is looked at only inside the branch for
  \<open>expression\<close>, so the name is empty and not of the form \<open>A_vs_B\<close>.
\<close>

theorem get_shorthand_contrary_only_counterexample:
  "map_of [(''contrary expression'', Str ''pain'')] ''contrary expression'' = Some (Str ''pain'') \<and>
   \<not> (\<exists>a. get_shorthand [(''contrary expression'', Str ''pain'')]
            = Inr (a @ ''_vs_'' @ shorten_expr ''pain''))"
  by (simp add: get_shorthand_def)

section \<open>Properties of update_status\<close>



section \<open>Lemmas on the array operations\<close>

lemma collect_images_iff:
  "collect_images image_name ms = Inr rows \<longleftrightarrow>
   list_all2 (\<lambda>m r. map_of (images m) image_name = Some r) ms rows"
proof (induction ms arbitrary: rows)
  case Nil
  show ?case by auto
next
  case (Cons m ms)
  show ?case
  proof (cases "map_of (images m) image_name")
    case None
    then show ?thesis by (auto simp: list_all2_Cons1)
  next
    case (Some img)
    show ?thesis
    proof (cases "collect_images image_name ms")
      case (Inl e)
      with Cons[of "tl rows"] Some show ?thesis
        by (cases rows) (auto simp: Cons)
    next
      case (Inr imgs)
      with Cons Some show ?thesis
        by (cases rows) auto
    qed
  qed
qed

lemma collect_images_present:
  assumes "\<forall>m\<in>set ms. \<exists>img. map_of (images m) image_name = Some img \<and> length img = n"
  shows "\<exists>rows. collect_images image_name ms = Inr rows \<and> (\<forall>r\<in>set rows. length r = n)
           \<and> length rows = length ms"
  using assms
proof (induction ms)
  case Nil
  show ?case by simp
next
  case (Cons m ms)
  then obtain rows where "collect_images image_name ms = Inr rows"
      and "\<forall>r\<in>set rows. length r = n" and "length rows = length ms"
    by auto
  moreover from Cons.prems obtain img where "map_of (images m) image_name = Some img"
      and "length img = n"
    by auto
  ultimately show ?case by simp
qed

lemma np_array_same_length: "\<forall>r\<in>set rows. length r = n \<Longrightarrow> np_array rows = Inr rows"
  by (cases rows) (simp_all add: np_array_def list_all_iff)

lemma np_array_Inr:
  "np_array rows = Inr m \<Longrightarrow> m = rows \<and> (\<forall>r\<in>set rows. length r = length (hd rows))"
  by (simp add: np_array_def list_all_iff split: if_splits)

lemma np_sum_axis0_counts:
  "rows \<noteq> [] \<Longrightarrow> \<forall>r\<in>set rows. length r = n \<Longrightarrow>
   np_sum_axis0 rows = map (\<lambda>j. length (filter (\<lambda>r. r ! j) rows)) [0..<n]"
proof (induction rows rule: np_sum_axis0.induct)
  case 1
  then show ?case by simp
next
  case (2 r)
  then show ?case by (auto intro!: nth_equalityI)
next
  case (3 r r' rs)
  then have "np_sum_axis0 (r' # rs) = map (\<lambda>j. length (filter (\<lambda>r. r ! j) (r' # rs))) [0..<n]"
    by simp
  with "3.prems" show ?case
    by (auto intro!: nth_equalityI)
qed

lemma voxel_count_rows:
  "list_all2 (\<lambda>m r. map_of (images m) image_name = Some r) ms rows \<Longrightarrow>
   \<forall>r\<in>set rows. length r = n \<Longrightarrow> j < n \<Longrightarrow>
   length (filter (\<lambda>r. r ! j) (map (map P) rows)) = voxel_count P image_name ms j"
  unfolding voxel_count_def
  by (induction ms rows rule: list_all2_induct) auto

lemma count_image:
  assumes "collect_images image_name ms = Inr rows" and "ms \<noteq> []"
    and "\<forall>r\<in>set rows. length r = n"
  shows "np_sum_axis0 (map (map P) rows) = map (voxel_count P image_name ms) [0..<n]"
proof -
  from assms(1) have l: "list_all2 (\<lambda>m r. map_of (images m) image_name = Some r) ms rows"
    by (simp only: collect_images_iff)
  with assms(2) have "rows \<noteq> []" by auto
  then have "np_sum_axis0 (map (map P) rows)
      = map (\<lambda>j. length (filter (\<lambda>r. r ! j) (map (map P) rows))) [0..<n]"
    using assms(3) by (intro np_sum_axis0_counts) auto
  also have "\<dots> = map (voxel_count P image_name ms) [0..<n]"
    using voxel_count_rows[OF l assms(3)] by simp
  finally show ?thesis .
qed
section \<open>Lemmas on the info of a result\<close>

lemma map_of_fold_update:
  "map_of (fold (\<lambda>kv d. AList.update (fst kv) (snd kv) d) pairs d0) k = Some v \<Longrightarrow>
   (k, v) \<in> set pairs \<or> map_of d0 k = Some v"
proof (induction pairs arbitrary: d0)
  case Nil
  then show ?case by simp
next
  case (Cons p ps)
  from Cons.prems have "map_of (fold (\<lambda>kv d. AList.update (fst kv) (snd kv) d) ps
      (AList.update (fst p) (snd p) d0)) k = Some v"
    by simp
  then have "(k, v) \<in> set ps \<or> map_of (AList.update (fst p) (snd p) d0) k = Some v"
    by (rule Cons.IH)
  then show ?case
    by (cases "k = fst p") (auto simp: update_conv')
qed

lemma map_of_odict: "map_of (odict pairs) k = Some v \<Longrightarrow> (k, v) \<in> set pairs"
  unfolding odict_def by (drule map_of_fold_update) simp

lemma get_shorthand_strings:
  assumes "\<And>x. (''expression'', Num x) \<notin> set pairs"
    and "\<And>x. (''contrary expression'', Num x) \<notin> set pairs"
  shows "\<exists>n. get_shorthand (odict pairs) = Inr n"
proof -
  have a: "map_of (odict pairs) ''expression'' \<noteq> Some (Num x)" for x
    using assms(1) map_of_odict by blast
  have b: "map_of (odict pairs) ''contrary expression'' \<noteq> Some (Num x)" for x
    using assms(2) map_of_odict by blast
  show ?thesis
    unfolding get_shorthand_def using a b
    by (simp split: option.split py_val.split)
qed

lemma Info_init_strings:
  assumes "expression_entries_are_strings extra_info"
  shows "\<exists>i. Info_init ([(''based on'', Str a), (''criterion'', Str b)] @ extra_info) = Inr i"
proof -
  let ?pairs = "[(''based on'', Str a), (''criterion'', Str b)] @ extra_info"
  have "(''expression'', Num x) \<notin> set ?pairs" for x
    using assms by (auto simp: expression_entries_are_strings_def list_all_iff)
  moreover have "(''contrary expression'', Num x) \<notin> set ?pairs" for x
    using assms by (auto simp: expression_entries_are_strings_def list_all_iff)
  ultimately obtain n where "get_shorthand (odict ?pairs) = Inr n"
    using get_shorthand_strings[of ?pairs] by blast
  then show ?thesis
    by (simp add: Info_init_def)
qed

lemma conjunction_result_ok:
  assumes "meta_list \<noteq> []" and "expression_entries_are_strings extra_info"
  shows "\<exists>r. conjunction_result meta_list image_name expression extra_info cnt comp_name = Inr r
           \<and> images r = [(''conjunction'', cnt)]"
proof -
  from assms(1) obtain m ms where ml: "meta_list = m # ms"
    by (cases meta_list) auto
  from Info_init_strings[OF assms(2)] obtain i
    where i: "Info_init ([(''based on'', Str image_name), (''criterion'', Str comp_name)]
                 @ extra_info) = Inr i"
    by blast
  show ?thesis
  proof (cases expression)
    case None
    with i ml show ?thesis
      by (simp add: conjunction_result_def meta_init_def)
  next
    case (Some e)
    with i ml show ?thesis
      by (cases e) (simp_all add: conjunction_result_def meta_init_def)
  qed
qed

lemma conjunction_result_Inr:
  assumes "conjunction_result meta_list image_name expression extra_info cnt comp_name = Inr r"
  shows "meta_list \<noteq> [] \<and> images r = [(''conjunction'', cnt)]"
  using assms
  by (auto simp: conjunction_result_def meta_init_def Let_def
      split: option.splits list.splits sum.splits)

lemma conjunction_image_criterion:
  assumes "conjunction_image str_of rows lower_thr upper_thr = Inr (cnt, comp_name)"
  shows "cnt = np_sum_axis0 (map (map (criterion lower_thr upper_thr)) rows)"
proof -
  have "(\<lambda>x. l < x) = criterion (Some l) None" "(\<lambda>x. x < u) = criterion None (Some u)"
    "l < u \<Longrightarrow> (\<lambda>x. l < x \<and> x < u) = criterion (Some l) (Some u)"
    "\<not> l < u \<Longrightarrow> (\<lambda>x. l < x \<or> x < u) = criterion (Some l) (Some u)" for l u
    by (auto simp: criterion_def fun_eq_iff)
  with assms show ?thesis
    by (auto simp: conjunction_image_def split: option.splits if_splits)
qed
section \<open>Properties of conjunction\<close>

lemma conjunction_valid:
  assumes "meta_list \<noteq> []"
    and "\<forall>m\<in>set meta_list. \<exists>img. map_of (images m) image_name = Some img \<and> length img = n"
    and "expression_entries_are_strings extra_info"
    and "lower_thr \<noteq> upper_thr"
    and "conjunction_image str_of rows lower_thr upper_thr
           = Inr (np_sum_axis0 (map (map P) rows), comp_name)"
    and "collect_images image_name meta_list = Inr rows"
  shows "\<exists>r. conjunction str_of meta_list image_name lower_thr upper_thr expression extra_info
               = Inr r
           \<and> images r = [(''conjunction'', map (voxel_count P image_name meta_list) [0..<n])]"
proof -
  from collect_images_present[OF assms(2)] assms(6) have len: "\<forall>r\<in>set rows. length r = n"
    by auto
  then have arr: "np_array rows = Inr rows"
    by (rule np_array_same_length)
  have cnt: "np_sum_axis0 (map (map P) rows) = map (voxel_count P image_name meta_list) [0..<n]"
    using assms(6) assms(1) len by (rule count_image)
  from conjunction_result_ok[OF assms(1) assms(3)] obtain r
    where "conjunction_result meta_list image_name expression extra_info
             (np_sum_axis0 (map (map P) rows)) comp_name = Inr r"
      and "images r = [(''conjunction'', np_sum_axis0 (map (map P) rows))]"
    by blast
  with assms(4) assms(5) assms(6) arr cnt show ?thesis
    by (auto simp: conjunction_def)
qed

text \<open>
  Claim C1: for a nonempty list of analyses that all have the image \<open>image_name\<close>
  (volumes of \<open>n\<close> voxels; the entries of \<open>extra_info\<close> for the expression keys are
  strings), \<open>conjunction\<close> returns an object whose image holds, at each voxel, the
  number of analyses whose value there is greater than \<open>lower_thr\<close> when only
  \<open>lower_thr\<close> is given; less than \<open>upper_thr\<close> when only \<open>upper_thr\<close> is given;
  greater than \<open>lower_thr\<close> and less than \<open>upper_thr\<close> when both are given and
  \<open>lower_thr < upper_thr\<close>; greater than \<open>lower_thr\<close> or less than \<open>upper_thr\<close> when
  both are given and \<open>lower_thr > upper_thr\<close>.
\<close>

theorem conjunction_counts:
  assumes "meta_list \<noteq> []"
    and "\<forall>m\<in>set meta_list. \<exists>img. map_of (images m) image_name = Some img \<and> length img = n"
    and "expression_entries_are_strings extra_info"
  shows
    "(\<exists>r. conjunction str_of meta_list image_name (Some l) None expression extra_info = Inr r \<and>
          images r = [(''conjunction'',
                       map (voxel_count (\<lambda>x. x > l) image_name meta_list) [0..<n])]) \<and>
     (\<exists>r. conjunction str_of meta_list image_name None (Some u) expression extra_info = Inr r \<and>
          images r = [(''conjunction'',
                       map (voxel_count (\<lambda>x. x < u) image_name meta_list) [0..<n])]) \<and>
     (l < u \<longrightarrow>
        (\<exists>r. conjunction str_of meta_list image_name (Some l) (Some u) expression extra_info
               = Inr r \<and>
             images r = [(''conjunction'',
                          map (voxel_count (\<lambda>x. x > l \<and> x < u) image_name meta_list) [0..<n])])) \<and>
     (l > u \<longrightarrow>
        (\<exists>r. conjunction str_of meta_list image_name (Some l) (Some u) expression extra_info
               = Inr r \<and>
             images r = [(''conjunction'',
                          map (voxel_count (\<lambda>x. x > l \<or> x < u) image_name meta_list) [0..<n])]))"
proof -
  from collect_images_present[OF assms(2)] obtain rows
    where rows: "collect_images image_name meta_list = Inr rows"
    by blast
  note valid = conjunction_valid[OF assms _ _ rows]
  have lower: "\<exists>r. conjunction str_of meta_list image_name (Some l) None expression extra_info
        = Inr r \<and>
      images r = [(''conjunction'', map (voxel_count (\<lambda>x. x > l) image_name meta_list) [0..<n])]"
    by (rule valid) (simp_all add: conjunction_image_def)
  have upper: "\<exists>r. conjunction str_of meta_list image_name None (Some u) expression extra_info
        = Inr r \<and>
      images r = [(''conjunction'', map (voxel_count (\<lambda>x. x < u) image_name meta_list) [0..<n])]"
    by (rule valid) (simp_all add: conjunction_image_def)
  have both: "\<exists>r. conjunction str_of meta_list image_name (Some l) (Some u) expression extra_info
        = Inr r \<and>
      images r = [(''conjunction'',
                   map (voxel_count (\<lambda>x. x > l \<and> x < u) image_name meta_list) [0..<n])]"
    if "l < u"
    using that by (intro valid) (simp_all add: conjunction_image_def)
  have either: "\<exists>r. conjunction str_of meta_list image_name (Some l) (Some u) expression extra_info
        = Inr r \<and>
      images r = [(''conjunction'',
                   map (voxel_count (\<lambda>x. x > l \<or> x < u) image_name meta_list) [0..<n])]"
    if "l > u"
    using that by (intro valid) (simp_all add: conjunction_image_def)
  from lower upper both either show ?thesis by blast
qed
theorem conjunction_counts_witness:
  "(\<exists>r. conjunction (\<lambda>x. ''t'')
          [\<lparr>info = \<lparr>items = [], name = []\<rparr>, dataset = (), images = [(''pA'', [1, - 1])]\<rparr>,
           \<lparr>info = \<lparr>items = [], name = []\<rparr>, dataset = (), images = [(''pA'', [2, - 2])]\<rparr>]
          ''pA'' (Some 0) None None [] = Inr r \<and> images r = [(''conjunction'', [2, 0])]) \<and>
   (\<exists>r. conjunction (\<lambda>x. ''t'')
          [\<lparr>info = \<lparr>items = [], name = []\<rparr>, dataset = (), images = [(''pA'', [1, - 1])]\<rparr>,
           \<lparr>info = \<lparr>items = [], name = []\<rparr>, dataset = (), images = [(''pA'', [2, - 2])]\<rparr>]
          ''pA'' None (Some 0) None [] = Inr r \<and> images r = [(''conjunction'', [0, 2])]) \<and>
   (\<exists>r. conjunction (\<lambda>x. ''t'')
          [\<lparr>info = \<lparr>items = [], name = []\<rparr>, dataset = (), images = [(''pA'', [1, - 1])]\<rparr>,
           \<lparr>info = \<lparr>items = [], name = []\<rparr>, dataset = (), images = [(''pA'', [2, - 2])]\<rparr>]
          ''pA'' (Some (- 3 / 2)) (Some (3 / 2)) None [] = Inr r \<and>
        images r = [(''conjunction'', [1, 1])]) \<and>
   (\<exists>r. conjunction (\<lambda>x. ''t'')
          [\<lparr>info = \<lparr>items = [], name = []\<rparr>, dataset = (), images = [(''pA'', [1, - 1])]\<rparr>,
           \<lparr>info = \<lparr>items = [], name = []\<rparr>, dataset = (), images = [(''pA'', [2, - 2])]\<rparr>]
          ''pA'' (Some (3 / 2)) (Some (- 3 / 2)) None [] = Inr r \<and>
        images r = [(''conjunction'', [1, 1])])"
proof -
  let ?ms = "[\<lparr>info = \<lparr>items = [], name = []\<rparr>, dataset = (), images = [(''pA'', [1, - 1 :: real])]\<rparr>,
              \<lparr>info = \<lparr>items = [], name = []\<rparr>, dataset = (), images = [(''pA'', [2, - 2])]\<rparr>]"
  have h1: "?ms \<noteq> []" by simp
  have h2: "\<forall>m\<in>set ?ms. \<exists>img. map_of (images m) ''pA'' = Some img \<and> length img = 2" by simp
  have h3: "expression_entries_are_strings []" by (simp add: expression_entries_are_strings_def)
  have n: "[0..<2] = [0, Suc 0]" by (simp add: upt_rec)
  have v1: "map (voxel_count (\<lambda>x. x > 0) ''pA'' ?ms) [0..<2] = [2, 0]"
    unfolding n by (simp add: voxel_count_def)
  have v2: "map (voxel_count (\<lambda>x. x < 0) ''pA'' ?ms) [0..<2] = [0, 2]"
    unfolding n by (simp add: voxel_count_def)
  have v3: "map (voxel_count (\<lambda>x. x > - 3 / 2 \<and> x < 3 / 2) ''pA'' ?ms) [0..<2] = [1, 1]"
    unfolding n by (simp add: voxel_count_def)
  have v4: "map (voxel_count (\<lambda>x. x > 3 / 2 \<or> x < - 3 / 2) ''pA'' ?ms) [0..<2] = [1, 1]"
    unfolding n by (simp add: voxel_count_def)
  have o1: "(- 3 / 2 :: real) < 3 / 2" and o2: "(3 / 2 :: real) > - 3 / 2" by simp_all
  note a = conjunction_counts[OF h1 h2 h3, where str_of = "\<lambda>x. ''t''" and expression = None
      and l = 0 and u = 0]
  note b = conjunction_counts[OF h1 h2 h3, where str_of = "\<lambda>x. ''t''" and expression = None
      and l = "- 3 / 2" and u = "3 / 2"]
  note c = conjunction_counts[OF h1 h2 h3, where str_of = "\<lambda>x. ''t''" and expression = None
      and l = "3 / 2" and u = "- 3 / 2"]
  from a have "\<exists>r. conjunction (\<lambda>x. ''t'') ?ms ''pA'' (Some 0) None None [] = Inr r \<and>
      images r = [(''conjunction'', [2, 0])]"
    unfolding v1 by blast
  moreover from a have "\<exists>r. conjunction (\<lambda>x. ''t'') ?ms ''pA'' None (Some 0) None [] = Inr r \<and>
      images r = [(''conjunction'', [0, 2])]"
    unfolding v2 by blast
  moreover from b o1 have "\<exists>r. conjunction (\<lambda>x. ''t'') ?ms ''pA'' (Some (- 3 / 2)) (Some (3 / 2))
      None [] = Inr r \<and> images r = [(''conjunction'', [1, 1])]"
    unfolding v3 by blast
  moreover from c o2 have "\<exists>r. conjunction (\<lambda>x. ''t'') ?ms ''pA'' (Some (3 / 2)) (Some (- 3 / 2))
      None [] = Inr r \<and> images r = [(''conjunction'', [1, 1])]"
    unfolding v4 by blast
  ultimately show ?thesis by blast
qed

lemma conjunction_image_ok:
  assumes "lower_thr \<noteq> upper_thr"
  shows "\<exists>comp_name. conjunction_image str_of rows lower_thr upper_thr
           = Inr (np_sum_axis0 (map (map (criterion lower_thr upper_thr)) rows), comp_name)"
proof -
  from assms have "\<exists>cc. conjunction_image str_of rows lower_thr upper_thr = Inr cc"
    by (cases lower_thr; cases upper_thr) (simp_all add: conjunction_image_def)
  then obtain cnt comp_name
    where c: "conjunction_image str_of rows lower_thr upper_thr = Inr (cnt, comp_name)"
    by fastforce
  then have "cnt = np_sum_axis0 (map (map (criterion lower_thr upper_thr)) rows)"
    by (rule conjunction_image_criterion)
  with c show ?thesis by blast
qed

text \<open>
  Claim C6: every valid call of \<open>conjunction\<close> (a nonempty list whose analyses all have
  the image \<open>image_name\<close> as a volume of \<open>n\<close> voxels, at least one threshold, two
  different thresholds when both are given, and string entries of \<open>extra_info\<close> for
  the expression keys) returns an object, and the images mapping of that object has
  exactly one entry, named \<open>conjunction\<close>, whose array holds for each of the \<open>n\<close>
  voxels the number of analyses whose value there satisfies the criterion of the
  thresholds.
\<close>

theorem conjunction_single_image:
  assumes "meta_list \<noteq> []"
    and "\<forall>m\<in>set meta_list. \<exists>img. map_of (images m) image_name = Some img \<and> length img = n"
    and "expression_entries_are_strings extra_info"
    and "lower_thr \<noteq> upper_thr"
  shows "\<exists>r. conjunction str_of meta_list image_name lower_thr upper_thr expression extra_info
               = Inr r \<and>
             images r = [(''conjunction'',
                          map (voxel_count (criterion lower_thr upper_thr) image_name meta_list)
                            [0..<n])]"
proof -
  from collect_images_present[OF assms(2)] obtain rows
    where rows: "collect_images image_name meta_list = Inr rows"
    by blast
  from conjunction_image_ok[OF assms(4)] obtain comp_name
    where "conjunction_image str_of rows lower_thr upper_thr
             = Inr (np_sum_axis0 (map (map (criterion lower_thr upper_thr)) rows), comp_name)"
    by blast
  with assms show ?thesis
    using rows by (rule conjunction_valid)
qed

theorem conjunction_single_image_witness:
  "\<exists>r. conjunction (\<lambda>x. ''t'')
         [\<lparr>info = \<lparr>items = [], name = []\<rparr>, dataset = (), images = [(''pA'', [1, - 1])]\<rparr>,
          \<lparr>info = \<lparr>items = [], name = []\<rparr>, dataset = (), images = [(''pA'', [2, - 2])]\<rparr>,
          \<lparr>info = \<lparr>items = [], name = []\<rparr>, dataset = (), images = [(''pA'', [3, 0])]\<rparr>]
         ''pA'' (Some 1) (Some 3) (Some ''pain'') [(''num_studies'', Num 3)] = Inr r \<and>
       images r = [(''conjunction'', [1, 0])]"
proof -
  let ?ms = "[\<lparr>info = \<lparr>items = [], name = []\<rparr>, dataset = (), images = [(''pA'', [1, - 1 :: real])]\<rparr>,
              \<lparr>info = \<lparr>items = [], name = []\<rparr>, dataset = (), images = [(''pA'', [2, - 2])]\<rparr>,
              \<lparr>info = \<lparr>items = [], name = []\<rparr>, dataset = (), images = [(''pA'', [3, 0])]\<rparr>]"
  have h1: "?ms \<noteq> []" by simp
  have h2: "\<forall>m\<in>set ?ms. \<exists>img. map_of (images m) ''pA'' = Some img \<and> length img = 2" by simp
  have h3: "expression_entries_are_strings [(''num_studies'', Num 3)]"
    by (simp add: expression_entries_are_strings_def)
  have h4: "Some (1 :: real) \<noteq> Some 3" by simp
  have n: "[0..<2] = [0, Suc 0]" by (simp add: upt_rec)
  have v: "map (voxel_count (criterion (Some 1) (Some 3)) ''pA'' ?ms) [0..<2] = [1, 0]"
    unfolding n by (simp add: voxel_count_def criterion_def)
  from conjunction_single_image[OF h1 h2 h3 h4, where str_of = "\<lambda>x. ''t''"
      and expression = "Some ''pain''"]
  show ?thesis unfolding v .
qed

section \<open>Properties of mean on two or more analyses\<close>

lemma mean_loop_keys:
  "mean_loop meta_list ks acc = Inr r \<Longrightarrow> fst ` set r = set ks \<union> fst ` set acc"
proof (induction ks arbitrary: acc)
  case Nil
  then show ?case by simp
next
  case (Cons k ks)
  from Cons.prems obtain rows where rows: "collect_images k meta_list = Inr rows"
    by (cases "collect_images k meta_list") simp_all
  with Cons.prems obtain m where m: "np_array rows = Inr m"
    by (cases "np_array rows") simp_all
  with Cons.prems rows
  have "mean_loop meta_list ks (AList.update k (np_mean_axis0 m) acc) = Inr r"
    by simp
  then have "fst ` set r = set ks \<union> fst ` set (AList.update k (np_mean_axis0 m) acc)"
    by (rule Cons.IH)
  then show ?case
    by (simp add: dom_update)
qed

lemma mean_loop_total:
  assumes "\<forall>k\<in>set ks. \<forall>m\<in>set meta_list.
             \<exists>img. map_of (images m) k = Some img \<and> length img = n"
  shows "\<exists>r. mean_loop meta_list ks acc = Inr r"
  using assms
proof (induction ks arbitrary: acc)
  case Nil
  show ?case by simp
next
  case (Cons k ks)
  then have "\<forall>m\<in>set meta_list. \<exists>img. map_of (images m) k = Some img \<and> length img = n"
    by simp
  from collect_images_present[OF this] obtain rows
    where rows: "collect_images k meta_list = Inr rows" and "\<forall>r\<in>set rows. length r = n"
    by blast
  then have arr: "np_array rows = Inr rows"
    using np_array_same_length by blast
  from Cons have "\<exists>r. mean_loop meta_list ks (AList.update k (np_mean_axis0 rows) acc) = Inr r"
    by simp
  with rows arr show ?case by simp
qed

lemma uniform_lookup:
  assumes "uniform_image_names meta_list" and "volumes_of_size n meta_list"
    and "k \<in> set (map fst (images (hd meta_list)))" and "m \<in> set meta_list"
  shows "\<exists>img. map_of (images m) k = Some img \<and> length img = n"
proof -
  from assms(1) assms(4) have "set (map fst (images m)) = set (map fst (images (hd meta_list)))"
    by (simp add: uniform_image_names_def list_all_iff)
  with assms(3) have "k \<in> fst ` set (images m)"
    by simp
  then obtain img where img: "map_of (images m) k = Some img"
    by (metis domD dom_map_of_conv_image_fst)
  then have "(k, img) \<in> set (images m)"
    by (rule map_of_SomeD)
  with assms(2) assms(4) have "length img = n"
    by (fastforce simp: volumes_of_size_def list_all_iff)
  with img show ?thesis by simp
qed

text \<open>
  Claim C10: for a list of two or more analyses, the object that \<open>mean\<close> returns has the
  info and the dataset of the first element of the list, and its set of image names is
  that of the first element; and \<open>mean\<close> does return an object when the image-name
  sets of the list are uniform (all images being volumes of one size).
\<close>

theorem mean_keeps_first:
  assumes "2 \<le> length meta_list"
  shows "(\<forall>r. mean meta_list = Inr r \<longrightarrow>
            info r = info (hd meta_list) \<and> dataset r = dataset (hd meta_list) \<and>
            set (map fst (images r)) = set (map fst (images (hd meta_list)))) \<and>
         (uniform_image_names meta_list \<and> volumes_of_size n meta_list \<longrightarrow>
            (\<exists>r. mean meta_list = Inr r))"
proof -
  from assms obtain m m' ms where ml: "meta_list = m # m' # ms"
    by (cases meta_list; cases "tl meta_list") auto
  have first: "info r = info m \<and> dataset r = dataset m \<and>
      set (map fst (images r)) = set (map fst (images m))"
    if "mean (m # m' # ms) = Inr r" for r
  proof -
    from that obtain mean_imgs
      where loop: "mean_loop (m # m' # ms) (map fst (images m)) [] = Inr mean_imgs"
      by (cases "mean_loop (m # m' # ms) (map fst (images m)) []") simp_all
    with that have r: "r = \<lparr>info = info m, dataset = dataset m, images = mean_imgs\<rparr>"
      by (simp add: meta_init_def)
    from mean_loop_keys[OF loop] have "fst ` set mean_imgs = set (map fst (images m))"
      by simp
    with r show ?thesis by simp
  qed
  have total: "\<exists>r. mean (m # m' # ms) = Inr r"
    if "uniform_image_names (m # m' # ms)" and "volumes_of_size n (m # m' # ms)"
  proof -
    have "\<forall>k\<in>set (map fst (images m)). \<forall>x\<in>set (m # m' # ms).
            \<exists>img. map_of (images x) k = Some img \<and> length img = n"
      using uniform_lookup[OF that] by simp
    from mean_loop_total[OF this] obtain mean_imgs
      where "mean_loop (m # m' # ms) (map fst (images m)) [] = Inr mean_imgs"
      by blast
    then show ?thesis
      by (simp add: meta_init_def)
  qed
  from first total show ?thesis
    unfolding ml list.sel by blast
qed

theorem mean_keeps_first_witness:
  "mean [\<lparr>info = \<lparr>items = [(''expression'', Str ''pain'')], name = ''pain''\<rparr>, dataset = (),
          images = [(''pA'', [1, 3]), (''pFgA'', [0, 2])]\<rparr>,
         \<lparr>info = \<lparr>items = [(''expression'', Str ''pain'')], name = ''pain''\<rparr>, dataset = (),
          images = [(''pFgA'', [4, 2]), (''pA'', [3, 4])]\<rparr>]
     = Inr \<lparr>info = \<lparr>items = [(''expression'', Str ''pain'')], name = ''pain''\<rparr>, dataset = (),
            images = [(''pA'', [2, 7 / 2]), (''pFgA'', [2, 2])]\<rparr> \<and>
   set (map fst [(''pA'', [2, 7 / 2 :: real]), (''pFgA'', [2, 2])])
     = set (map fst [(''pA'', [1, 3 :: real]), (''pFgA'', [0, 2])])"
proof -
  let ?m1 = "\<lparr>info = \<lparr>items = [(''expression'', Str ''pain'')], name = ''pain''\<rparr>, dataset = (),
          images = [(''pA'', [1, 3 :: real]), (''pFgA'', [0, 2])]\<rparr>"
  let ?m2 = "\<lparr>info = \<lparr>items = [(''expression'', Str ''pain'')], name = ''pain''\<rparr>, dataset = (),
          images = [(''pFgA'', [4, 2 :: real]), (''pA'', [3, 4])]\<rparr>"
  let ?r = "\<lparr>info = \<lparr>items = [(''expression'', Str ''pain'')], name = ''pain''\<rparr>, dataset = (),
            images = [(''pA'', [2, 7 / 2 :: real]), (''pFgA'', [2, 2])]\<rparr>"
  have len: "2 \<le> length [?m1, ?m2]" by simp
  have u: "uniform_image_names [?m1, ?m2]"
    by (auto simp: uniform_image_names_def)
  have v: "volumes_of_size 2 [?m1, ?m2]"
    by (simp add: volumes_of_size_def)
  from mean_keeps_first[OF len, of 2] u v have ex: "\<exists>r. mean [?m1, ?m2] = Inr r"
    by blast
  have n: "[0..<2] = [0, Suc 0]" by (simp add: upt_rec)
  have "mean [?m1, ?m2] = Inr ?r"
    by (simp add: np_array_def np_mean_axis0_def meta_init_def n)
  moreover from mean_keeps_first[OF len, of 2] this
  have "set (map fst (images ?r)) = set (map fst (images (hd [?m1, ?m2])))"
    by blast
  ultimately show ?thesis using ex by simp
qed

end
